theory Spec2Isabelle
  imports Complex_Main
begin

section \<open>The cleaning step of the sales dashboard (\<^verbatim>\<open>src/data_prep.py\<close>)\<close>

text \<open>
  The repository is one pandas transformation, \<^verbatim>\<open>clean\<close>. Its source is built from
  pandas primitives (\<^verbatim>\<open>dropna\<close>, \<^verbatim>\<open>to_datetime\<close>, boolean masks, \<^verbatim>\<open>astype\<close>,
  the \<^verbatim>\<open>.dt\<close> and \<^verbatim>\<open>.str\<close> accessors, \<^verbatim>\<open>reset_index\<close>). Each primitive is given a
  definition of its own below, and \<^verbatim>\<open>clean\<close> composes them in the order of the source.
\<close>

subsection \<open>Text cells\<close>

text \<open>
  \<^verbatim>\<open>load_raw\<close> decodes the file as ISO-8859-1, so every character of a text cell is a
  code point below 256, which is what a HOL \<^typ>\<open>char\<close> holds. Python's \<^verbatim>\<open>str.strip()\<close>
  removes the characters for which \<^verbatim>\<open>str.isspace\<close> holds; below 256 these are the code
  points 9 to 13, 28 to 32, 133 and 160.
\<close>

definition isspace :: "char \<Rightarrow> bool" where
  "isspace c = (let n = (of_char c :: nat) in
     (9 \<le> n \<and> n \<le> 13) \<or> (28 \<le> n \<and> n \<le> 32) \<or> n = 133 \<or> n = 160)"

definition strip :: "string \<Rightarrow> string" where
  "strip s = rev (dropWhile isspace (rev (dropWhile isspace s)))"

subsection \<open>Float cells (dtype float64)\<close>

text \<open>
  A float64 value is NaN, an infinity, or a finite number, kept as the rational it
  denotes. NaN is also how pandas stores a missing value in a float column. The sign of
  zero is not kept: no operation of \<^verbatim>\<open>clean\<close> distinguishes the two zeros.
\<close>

datatype f64 = NaN | PInf | NInf | Fin rat

text \<open>The mask \<^verbatim>\<open>column > 0\<close>: a comparison with NaN is false.\<close>

fun f64_gt_zero :: "f64 \<Rightarrow> bool" where
  "f64_gt_zero NaN = False"
| "f64_gt_zero PInf = True"
| "f64_gt_zero NInf = False"
| "f64_gt_zero (Fin q) = (0 < q)"

fun f64_isfinite :: "f64 \<Rightarrow> bool" where
  "f64_isfinite (Fin q) = True"
| "f64_isfinite x = False"

text \<open>
  Arithmetic results are rounded to the nearest double, ties to even: 53 significant
  bits, exponents of normal numbers from -1022 to 1023, subnormal numbers with the
  spacing \<open>2^-1074\<close>, and overflow to an infinity.
\<close>

function bit_length :: "int \<Rightarrow> int" where
  "bit_length n = (if n \<le> 0 then 0 else 1 + bit_length (n div 2))"
  by pat_completeness auto
termination
  by (relation "measure nat") auto

declare bit_length.simps [simp del]

definition pow2 :: "int \<Rightarrow> rat" where
  "pow2 k = (if 0 \<le> k then 2 ^ nat k else 1 / 2 ^ nat (- k))"

text \<open>
  \<open>bit_length n\<close> is the number of binary digits of \<open>n\<close>, and \<open>ilog2 q\<close> the exponent
  \<open>e\<close> with \<open>2^e \<le> q < 2^(e+1)\<close>, for a positive \<open>q\<close>.
\<close>

definition ilog2 :: "rat \<Rightarrow> int" where
  "ilog2 q = (if 1 \<le> q then bit_length \<lfloor>q\<rfloor> - 1 else - bit_length (\<lceil>1 / q\<rceil> - 1))"

definition round_half_even :: "rat \<Rightarrow> int" where
  "round_half_even q = (let f = \<lfloor>q\<rfloor>; d = q - of_int f in
     if d < 1 / 2 then f
     else if 1 / 2 < d then f + 1
     else if even f then f else f + 1)"

definition f64_round :: "rat \<Rightarrow> f64" where
  "f64_round q = (if q = 0 then Fin 0 else
     let e = max (ilog2 \<bar>q\<bar>) (- 1022);
         ulp = pow2 (e - 52);
         r = of_int (round_half_even (q / ulp)) * ulp
     in if pow2 1024 \<le> \<bar>r\<bar> then (if 0 < q then PInf else NInf) else Fin r)"

text \<open>An int64 operand is converted to float64 before a mixed operation.\<close>

definition f64_of_int :: "int \<Rightarrow> f64" where
  "f64_of_int i = f64_round (of_int i)"

fun f64_mul :: "f64 \<Rightarrow> f64 \<Rightarrow> f64" where
  "f64_mul (Fin a) (Fin b) = f64_round (a * b)"
| "f64_mul NaN y = NaN"
| "f64_mul x NaN = NaN"
| "f64_mul (Fin a) PInf = (if a = 0 then NaN else if 0 < a then PInf else NInf)"
| "f64_mul (Fin a) NInf = (if a = 0 then NaN else if 0 < a then NInf else PInf)"
| "f64_mul PInf (Fin b) = (if b = 0 then NaN else if 0 < b then PInf else NInf)"
| "f64_mul NInf (Fin b) = (if b = 0 then NaN else if 0 < b then NInf else PInf)"
| "f64_mul PInf PInf = PInf"
| "f64_mul PInf NInf = NInf"
| "f64_mul NInf PInf = NInf"
| "f64_mul NInf NInf = PInf"

subsection \<open>Timestamps (dtype datetime64[ns])\<close>

text \<open>
  A timestamp is a valid civil date and time of day. The year lies within the years a
  datetime64[ns] value can hold. The calendar functions are those of pandas'
  \<^verbatim>\<open>ccalendar\<close> module, which the \<^verbatim>\<open>.dt\<close> accessor calls.
\<close>

record civil =
  year :: int
  month :: int
  day :: int
  hour :: int
  minute :: int
  second :: int

definition is_leapyear :: "int \<Rightarrow> bool" where
  "is_leapyear y = (y mod 4 = 0 \<and> (y mod 100 \<noteq> 0 \<or> y mod 400 = 0))"

definition days_per_month :: "int list" where
  "days_per_month = [31, 28, 31, 30, 31, 30, 31, 31, 30, 31, 30, 31]"

definition get_days_in_month :: "int \<Rightarrow> int \<Rightarrow> int" where
  "get_days_in_month y m =
     (if m = 2 \<and> is_leapyear y then 29 else days_per_month ! nat (m - 1))"

definition valid_civil :: "civil \<Rightarrow> bool" where
  "valid_civil c =
     (1677 \<le> year c \<and> year c \<le> 2262 \<and> 1 \<le> month c \<and> month c \<le> 12 \<and>
      1 \<le> day c \<and> day c \<le> get_days_in_month (year c) (month c) \<and>
      0 \<le> hour c \<and> hour c < 24 \<and> 0 \<le> minute c \<and> minute c < 60 \<and>
      0 \<le> second c \<and> second c < 60)"

typedef timestamp = "{c. valid_civil c}"
  morphisms civil_of Timestamp
proof
  show "\<lparr>year = 1970, month = 1, day = 1, hour = 0, minute = 0, second = 0\<rparr>
          \<in> {c. valid_civil c}"
    by (simp add: valid_civil_def get_days_in_month_def days_per_month_def)
qed

text \<open>Day of the week, 0 for Monday.\<close>

definition em :: "int list" where
  "em = [0, 0, 3, 2, 5, 0, 3, 5, 1, 4, 6, 2, 4]"

definition dayofweek :: "int \<Rightarrow> int \<Rightarrow> int \<Rightarrow> int" where
  "dayofweek y m d =
     (let y = (if m < 3 then y - 1 else y);
          c = y div 100;
          g = y - c * 100;
          f = 5 * (c mod 4);
          e = em ! nat m
      in (- 1 + d + e + f + g + g div 4) mod 7)"

definition month_offset :: "int list" where
  "month_offset = [0, 31, 59, 90, 120, 151, 181, 212, 243, 273, 304, 334, 365]"

definition get_day_of_year :: "int \<Rightarrow> int \<Rightarrow> int \<Rightarrow> int" where
  "get_day_of_year y m d =
     month_offset ! nat (m - 1) + (if is_leapyear y \<and> 2 < m then 1 else 0) + d"

text \<open>The ISO 8601 week number: an estimate from the day of the year, then the two
  corrections at the ends of the year.\<close>

definition get_week_of_year :: "int \<Rightarrow> int \<Rightarrow> int \<Rightarrow> int" where
  "get_week_of_year y m d =
     (let doy = get_day_of_year y m d;
          dow = dayofweek y m d;
          w = (doy - 1) - dow + 3;
          w = (if 0 \<le> w then w div 7 + 1 else w)
      in if w < 0 then
           (if - 2 < w \<or> (w = - 2 \<and> is_leapyear (y - 1)) then 53 else 52)
         else if w = 53 \<and> 31 - d + dow < 3 then 1
         else w)"

definition day_names :: "string list" where
  "day_names = [''Monday'', ''Tuesday'', ''Wednesday'', ''Thursday'', ''Friday'',
                ''Saturday'', ''Sunday'']"

definition ts_dayofweek :: "timestamp \<Rightarrow> int" where
  "ts_dayofweek t = (let c = civil_of t in dayofweek (year c) (month c) (day c))"

definition ts_week :: "timestamp \<Rightarrow> int" where
  "ts_week t = (let c = civil_of t in get_week_of_year (year c) (month c) (day c))"

definition ts_day_name :: "timestamp \<Rightarrow> string" where
  "ts_day_name t = day_names ! nat (ts_dayofweek t)"

subsection \<open>Rows and frames\<close>

text \<open>
  A cell of the \<^verbatim>\<open>InvoiceDate\<close> column is missing, a text still to be parsed, or a
  timestamp (after \<^verbatim>\<open>to_datetime\<close> the missing value is NaT). A cell of the
  \<^verbatim>\<open>Customer ID\<close> column is a float (the dtype of a numeric column with missing values,
  NaN being the missing one) or an integer (the dtype after \<^verbatim>\<open>astype(int)\<close>). A text cell is
  \<open>None\<close> when it is missing. \<^verbatim>\<open>Quantity\<close> is an int64 column.
\<close>

datatype date_cell = DateNull | DateText string | DateStamp timestamp

datatype cid_cell = CidFloat f64 | CidInt int

record raw_row =
  InvoiceNo :: "string option"
  StockCode :: "string option"
  Description :: "string option"
  Quantity :: int
  InvoiceDate :: date_cell
  Price :: f64
  CustomerID :: cid_cell
  Country :: "string option"

text \<open>
  The columns that \<^verbatim>\<open>clean\<close> adds. A value derived from NaT is missing. A column is
  modelled by the values of its cells: the dtype pandas chooses for it (an integer dtype,
  or float64 for the year and the month once the column holds a missing value) is not
  part of the model, so \<open>Some 12\<close> stands for the month 12 under either dtype.
\<close>

record clean_row = raw_row +
  TotalPrice :: f64
  InvoiceYear :: "int option"
  InvoiceMonth :: "int option"
  YearMonth :: "(int \<times> int) option"
  InvoiceWeek :: "int option"
  InvoiceDay :: "string option"

text \<open>A frame is the list of its rows in order, each with its index label.\<close>

type_synonym 'r frame = "(nat \<times> 'r) list"

datatype error = ParseError | IntCastingNaNError | AttributeError

text \<open>A column operation that raises at the first cell it cannot convert.\<close>

fun try_map :: "('a \<Rightarrow> error + 'b) \<Rightarrow> 'a list \<Rightarrow> error + 'b list" where
  "try_map f [] = Inr []"
| "try_map f (x # xs) =
     (case f x of
        Inl e \<Rightarrow> Inl e
      | Inr y \<Rightarrow> (case try_map f xs of Inl e \<Rightarrow> Inl e | Inr ys \<Rightarrow> Inr (y # ys)))"

subsection \<open>The pandas primitives that \<^verbatim>\<open>clean\<close> calls\<close>

text \<open>\<^verbatim>\<open>df.dropna(subset=[col])\<close> and \<^verbatim>\<open>df[mask]\<close> keep rows, with their labels, in order.\<close>

definition dropna :: "('r \<Rightarrow> bool) \<Rightarrow> 'r frame \<Rightarrow> 'r frame" where
  "dropna isna df = filter (\<lambda>(i, r). \<not> isna r) df"

definition mask :: "('r \<Rightarrow> bool) \<Rightarrow> 'r frame \<Rightarrow> 'r frame" where
  "mask p df = filter (\<lambda>(i, r). p r) df"

fun cid_isna :: "cid_cell \<Rightarrow> bool" where
  "cid_isna (CidFloat NaN) = True"
| "cid_isna c = False"

text \<open>
  \<^verbatim>\<open>pd.to_datetime\<close>: a missing value becomes NaT, a timestamp stays, a text is parsed and
  the call raises when the text is not date-like. Which texts are date-like is the
  parser's matter: it is the parameter \<open>parse\<close>.
\<close>

fun to_datetime :: "(string \<Rightarrow> timestamp option) \<Rightarrow> date_cell \<Rightarrow> error + date_cell" where
  "to_datetime parse DateNull = Inr DateNull"
| "to_datetime parse (DateStamp t) = Inr (DateStamp t)"
| "to_datetime parse (DateText s) =
     (case parse s of None \<Rightarrow> Inl ParseError | Some t \<Rightarrow> Inr (DateStamp t))"

definition assign_InvoiceDate ::
  "(string \<Rightarrow> timestamp option) \<Rightarrow> ('a raw_row_scheme) frame \<Rightarrow> error + ('a raw_row_scheme) frame"
where
  "assign_InvoiceDate parse df =
     try_map (\<lambda>(i, r). case to_datetime parse (InvoiceDate r) of
                          Inl e \<Rightarrow> Inl e
                        | Inr d \<Rightarrow> Inr (i, r\<lparr>InvoiceDate := d\<rparr>)) df"

text \<open>
  \<^verbatim>\<open>astype(int)\<close>. On a float column pandas first raises IntCastingNaNError if any value
  is not finite, then converts each value as C does, dropping the fraction, with the
  warnings of the conversion silenced. The call does not raise for a value whose integer
  part lies outside the int64 range: the conversion instruction of x86-64 then yields
  the least int64, \<open>-2^63\<close>. An integer column is left as it is.
\<close>

fun cid_isfinite :: "cid_cell \<Rightarrow> bool" where
  "cid_isfinite (CidFloat x) = f64_isfinite x"
| "cid_isfinite (CidInt n) = True"

definition float_to_int :: "rat \<Rightarrow> int" where
  "float_to_int q = (if 0 \<le> q then \<lfloor>q\<rfloor> else - \<lfloor>- q\<rfloor>)"

definition in_int64 :: "int \<Rightarrow> bool" where
  "in_int64 n = (- (2 ^ 63) \<le> n \<and> n < 2 ^ 63)"

fun astype_int :: "cid_cell \<Rightarrow> error + cid_cell" where
  "astype_int (CidInt n) = Inr (CidInt n)"
| "astype_int (CidFloat (Fin q)) =
     Inr (CidInt (if in_int64 (float_to_int q) then float_to_int q else - (2 ^ 63)))"
| "astype_int (CidFloat x) = Inl IntCastingNaNError"

definition assign_CustomerID ::
  "('a raw_row_scheme) frame \<Rightarrow> error + ('a raw_row_scheme) frame"
where
  "assign_CustomerID df =
     (if list_ex (\<lambda>(i, r). \<not> cid_isfinite (CustomerID r)) df then Inl IntCastingNaNError
      else try_map (\<lambda>(i, r). case astype_int (CustomerID r) of
                                 Inl e \<Rightarrow> Inl e
                               | Inr c \<Rightarrow> Inr (i, r\<lparr>CustomerID := c\<rparr>)) df)"

text \<open>
  The \<^verbatim>\<open>.dt\<close> accessor exists on a datetime column only; on a text it raises
  AttributeError. Every field of NaT is missing.
\<close>

fun dt :: "date_cell \<Rightarrow> error + timestamp option" where
  "dt DateNull = Inr None"
| "dt (DateStamp t) = Inr (Some t)"
| "dt (DateText s) = Inl AttributeError"

text \<open>Lines 35 to 40: the six derived columns of a row.\<close>

definition feature_row :: "'a raw_row_scheme \<Rightarrow> error + clean_row" where
  "feature_row r =
     (case dt (InvoiceDate r) of
        Inl e \<Rightarrow> Inl e
      | Inr t \<Rightarrow> Inr
          \<lparr>InvoiceNo = InvoiceNo r, StockCode = StockCode r, Description = Description r,
           Quantity = Quantity r, InvoiceDate = InvoiceDate r, Price = Price r,
           CustomerID = CustomerID r, Country = Country r,
           TotalPrice = f64_mul (f64_of_int (Quantity r)) (Price r),
           InvoiceYear = map_option (\<lambda>t. year (civil_of t)) t,
           InvoiceMonth = map_option (\<lambda>t. month (civil_of t)) t,
           YearMonth = map_option (\<lambda>t. (year (civil_of t), month (civil_of t))) t,
           InvoiceWeek = map_option ts_week t,
           InvoiceDay = map_option ts_day_name t\<rparr>)"

definition feature_engineering :: "('a raw_row_scheme) frame \<Rightarrow> error + clean_row frame" where
  "feature_engineering df =
     try_map (\<lambda>(i, r). case feature_row r of Inl e \<Rightarrow> Inl e | Inr r' \<Rightarrow> Inr (i, r')) df"

text \<open>\<^verbatim>\<open>.str.strip()\<close> leaves a missing value missing.\<close>

definition assign_Description :: "clean_row frame \<Rightarrow> clean_row frame" where
  "assign_Description df =
     map (\<lambda>(i, r). (i, r\<lparr>Description := map_option strip (Description r)\<rparr>)) df"

definition reset_index :: "'r frame \<Rightarrow> 'r frame" where
  "reset_index df = zip [0 ..< length df] (map snd df)"

subsection \<open>\<^verbatim>\<open>clean\<close>\<close>

definition clean ::
  "(string \<Rightarrow> timestamp option) \<Rightarrow> ('a raw_row_scheme) frame \<Rightarrow> error + clean_row frame"
where
  "clean parse df =
     (let df = dropna (\<lambda>r. Description r = None) df in
      case assign_InvoiceDate parse df of
        Inl e \<Rightarrow> Inl e
      | Inr df \<Rightarrow>
          (let df = mask (\<lambda>r. 0 < Quantity r) df;
               df = mask (\<lambda>r. f64_gt_zero (Price r)) df;
               df = dropna (\<lambda>r. cid_isna (CustomerID r)) df
           in case assign_CustomerID df of
                Inl e \<Rightarrow> Inl e
              | Inr df \<Rightarrow>
                  (case feature_engineering df of
                     Inl e \<Rightarrow> Inl e
                   | Inr df \<Rightarrow> Inr (reset_index (assign_Description df)))))"

subsection \<open>A parser for the timestamps of the data set\<close>

text \<open>
  The texts of the form \<^verbatim>\<open>YYYY-MM-DD HH:MM\<close>, which pandas reads as that date and time.
\<close>

definition isdigit :: "char \<Rightarrow> bool" where
  "isdigit c = (48 \<le> (of_char c :: nat) \<and> (of_char c :: nat) \<le> 57)"

definition number :: "string \<Rightarrow> int" where
  "number s = foldl (\<lambda>a c. 10 * a + (int (of_char c) - 48)) 0 s"

definition parse_iso :: "string \<Rightarrow> timestamp option" where
  "parse_iso s =
     (if length s = 16 \<and> s ! 4 = CHR ''-'' \<and> s ! 7 = CHR ''-'' \<and> s ! 10 = CHR '' '' \<and>
         s ! 13 = CHR '':'' \<and>
         list_all isdigit (take 4 s @ take 2 (drop 5 s) @ take 2 (drop 8 s) @
                           take 2 (drop 11 s) @ take 2 (drop 14 s))
      then
        (let c = \<lparr>year = number (take 4 s), month = number (take 2 (drop 5 s)),
                  day = number (take 2 (drop 8 s)), hour = number (take 2 (drop 11 s)),
                  minute = number (take 2 (drop 14 s)), second = 0\<rparr>
         in if valid_civil c then Some (Timestamp c) else None)
      else None)"

subsection \<open>Sample frames\<close>

text \<open>
  The row of the specification's scenario, and a frame of four rows around it: the
  scenario row, a return (Quantity -5), a row without Customer ID, and a row whose
  Customer ID 12345.5 has a fraction.
\<close>

definition mug_row :: raw_row where
  "mug_row =
     \<lparr>InvoiceNo = Some ''536365'', StockCode = Some ''21730'', Description = Some '' Mug '',
      Quantity = 3, InvoiceDate = DateText ''2010-12-01 08:26'', Price = Fin (5 / 2),
      CustomerID = CidFloat (Fin 17850), Country = Some ''United Kingdom''\<rparr>"

definition plate_row :: raw_row where
  "plate_row =
     \<lparr>InvoiceNo = Some ''539993'', StockCode = Some ''22386'', Description = Some ''Plate'',
      Quantity = 6, InvoiceDate = DateText ''2011-01-02 10:30'', Price = Fin (1 / 4),
      CustomerID = CidFloat (Fin (24691 / 2)), Country = Some ''France''\<rparr>"

definition sample_frame :: "raw_row frame" where
  "sample_frame =
     [(0, mug_row), (1, mug_row\<lparr>Quantity := - 5\<rparr>),
      (2, mug_row\<lparr>CustomerID := CidFloat NaN\<rparr>), (3, plate_row)]"

definition mug_clean :: clean_row where
  "mug_clean =
     \<lparr>InvoiceNo = Some ''536365'', StockCode = Some ''21730'', Description = Some ''Mug'',
      Quantity = 3,
      InvoiceDate = DateStamp (Timestamp
        \<lparr>year = 2010, month = 12, day = 1, hour = 8, minute = 26, second = 0\<rparr>),
      Price = Fin (5 / 2), CustomerID = CidInt 17850, Country = Some ''United Kingdom'',
      TotalPrice = Fin (15 / 2), InvoiceYear = Some 2010, InvoiceMonth = Some 12,
      YearMonth = Some (2010, 12), InvoiceWeek = Some 48, InvoiceDay = Some ''Wednesday''\<rparr>"

definition plate_clean :: clean_row where
  "plate_clean =
     \<lparr>InvoiceNo = Some ''539993'', StockCode = Some ''22386'', Description = Some ''Plate'',
      Quantity = 6,
      InvoiceDate = DateStamp (Timestamp
        \<lparr>year = 2011, month = 1, day = 2, hour = 10, minute = 30, second = 0\<rparr>),
      Price = Fin (1 / 4), CustomerID = CidInt 12345, Country = Some ''France'',
      TotalPrice = Fin (3 / 2), InvoiceYear = Some 2011, InvoiceMonth = Some 1,
      YearMonth = Some (2011, 1), InvoiceWeek = Some 52, InvoiceDay = Some ''Sunday''\<rparr>"

subsection \<open>The row-wise reading of \<^verbatim>\<open>clean\<close>\<close>

text \<open>
  The properties below speak of the rows that \<^verbatim>\<open>clean\<close> keeps and of what becomes of one
  row. \<open>retained\<close> is the conjunction of the four filters of the source (lines 21, 27,
  28 and 31), and \<open>clean_row_of\<close> applies the column assignments of lines 24, 32, 35 to
  40 and 43 to a single row. That \<^verbatim>\<open>clean\<close>, which works column by column, agrees with
  this reading is proved, not assumed.
\<close>

definition retained :: "'a raw_row_scheme \<Rightarrow> bool" where
  "retained r =
     (Description r \<noteq> None \<and> 0 < Quantity r \<and> f64_gt_zero (Price r) \<and>
      \<not> cid_isna (CustomerID r))"

definition clean_row_of ::
  "(string \<Rightarrow> timestamp option) \<Rightarrow> 'a raw_row_scheme \<Rightarrow> error + clean_row"
where
  "clean_row_of parse r =
     (case to_datetime parse (InvoiceDate r) of
        Inl e \<Rightarrow> Inl e
      | Inr d \<Rightarrow>
          (case astype_int (CustomerID r) of
             Inl e \<Rightarrow> Inl e
           | Inr c \<Rightarrow>
               (case feature_row (r\<lparr>InvoiceDate := d, CustomerID := c\<rparr>) of
                  Inl e \<Rightarrow> Inl e
                | Inr r' \<Rightarrow> Inr (r'\<lparr>Description := map_option strip (Description r')\<rparr>))))"

section \<open>Properties of \<^verbatim>\<open>clean\<close>\<close>

subsection \<open>Evaluation on concrete values\<close>

lemma floor_numeral_div: "\<lfloor>numeral a / numeral b :: rat\<rfloor> = numeral a div numeral b"
  using floor_divide_of_int_eq [of "numeral a" "numeral b", where ?'a = rat] by simp

lemma ceiling_numeral_div: "\<lceil>numeral a / numeral b :: rat\<rceil> = - (- numeral a div numeral b)"
  using floor_divide_of_int_eq [of "- numeral a" "numeral b", where ?'a = rat]
  by (simp add: ceiling_def)

lemma bit_length_nonpos: "n \<le> 0 \<Longrightarrow> bit_length n = 0"
  by (simp add: bit_length.simps)

lemma bit_length_pos: "0 < n \<Longrightarrow> bit_length n = 1 + bit_length (n div 2)"
  by (subst bit_length.simps) simp

lemmas f64_eval =
  f64_of_int_def f64_round_def ilog2_def pow2_def round_half_even_def bit_length_nonpos
  bit_length_pos floor_numeral_div ceiling_numeral_div Let_def

lemmas calendar_defs =
  ts_week_def ts_day_name_def ts_dayofweek_def get_week_of_year_def get_day_of_year_def
  dayofweek_def month_offset_def em_def is_leapyear_def day_names_def

lemmas clean_defs =
  clean_def dropna_def mask_def assign_InvoiceDate_def assign_CustomerID_def float_to_int_def
  in_int64_def feature_engineering_def feature_row_def assign_Description_def reset_index_def

lemma valid_civil_mug:
  "valid_civil \<lparr>year = 2010, month = 12, day = 1, hour = 8, minute = 26, second = 0\<rparr>"
  by (simp add: valid_civil_def get_days_in_month_def days_per_month_def)

lemma valid_civil_plate:
  "valid_civil \<lparr>year = 2011, month = 1, day = 2, hour = 10, minute = 30, second = 0\<rparr>"
  by (simp add: valid_civil_def get_days_in_month_def days_per_month_def)

lemma parse_iso_mug:
  "parse_iso ''2010-12-01 08:26'' =
     Some (Timestamp \<lparr>year = 2010, month = 12, day = 1, hour = 8, minute = 26, second = 0\<rparr>)"
  by (simp add: parse_iso_def isdigit_def number_def valid_civil_mug)

lemma parse_iso_plate:
  "parse_iso ''2011-01-02 10:30'' =
     Some (Timestamp \<lparr>year = 2011, month = 1, day = 2, hour = 10, minute = 30, second = 0\<rparr>)"
  by (simp add: parse_iso_def isdigit_def number_def valid_civil_plate)

lemma f64_mul_mug: "f64_mul (f64_of_int 3) (Fin (5 / 2)) = Fin (15 / 2)"
  by (simp add: f64_eval)

lemma f64_mul_plate: "f64_mul (f64_of_int 6) (Fin (1 / 4)) = Fin (3 / 2)"
  by (simp add: f64_eval)

lemma strip_mug: "strip '' Mug '' = ''Mug''"
  by (simp add: strip_def isspace_def)

lemma strip_plate: "strip ''Plate'' = ''Plate''"
  by (simp add: strip_def isspace_def)

lemmas sample_eval =
  parse_iso_mug parse_iso_plate f64_mul_mug f64_mul_plate strip_mug strip_plate
  Timestamp_inverse valid_civil_mug valid_civil_plate

lemma clean_sample_frame:
  "clean parse_iso sample_frame = Inr [(0, mug_clean), (1, plate_clean)]"
  by (simp add: sample_frame_def mug_row_def plate_row_def mug_clean_def plate_clean_def
      clean_defs calendar_defs sample_eval floor_numeral_div Let_def)

subsection \<open>Columns that may raise\<close>

lemma try_map_Inr_length: "try_map f xs = Inr ys \<Longrightarrow> length ys = length xs"
  by (induction xs arbitrary: ys) (auto split: sum.splits)

lemma try_map_comp:
  "try_map f xs = Inr ys \<Longrightarrow>
   try_map (\<lambda>x. case f x of Inl e \<Rightarrow> Inl e | Inr y \<Rightarrow> g y) xs = try_map g ys"
  by (induction xs arbitrary: ys) (auto split: sum.splits)

lemma try_map_filter:
  "try_map f xs = Inr ys \<Longrightarrow> (\<And>x y. f x = Inr y \<Longrightarrow> P x = Q y) \<Longrightarrow>
   try_map f (filter P xs) = Inr (filter Q ys)"
  by (induction xs arbitrary: ys) (auto split: sum.splits)

lemma try_map_Inr_map: "try_map (\<lambda>x. Inr (h x)) xs = Inr (map h xs)"
  by (induction xs) auto

lemma try_map_cong:
  "(\<And>x. x \<in> set xs \<Longrightarrow> f x = g x) \<Longrightarrow> try_map f xs = try_map g xs"
  by (induction xs) (auto split: sum.splits)

lemma try_map_Inr_set:
  "try_map f xs = Inr ys \<Longrightarrow> y \<in> set ys \<Longrightarrow> \<exists>x \<in> set xs. f x = Inr y"
  by (induction xs arbitrary: ys) (auto split: sum.splits)

lemma try_map_Inr_all:
  "try_map f xs = Inr ys \<Longrightarrow> x \<in> set xs \<Longrightarrow> \<exists>y \<in> set ys. f x = Inr y"
  by (induction xs arbitrary: ys) (auto split: sum.splits)

lemma try_map_Inl_set:
  "try_map f xs = Inl e \<Longrightarrow> \<exists>x \<in> set xs. f x = Inl e"
  by (induction xs) (auto split: sum.splits)

lemma try_map_fails:
  "x \<in> set xs \<Longrightarrow> f x = Inl e \<Longrightarrow> \<exists>e'. try_map f xs = Inl e'"
  by (induction xs) (auto split: sum.splits)

lemma try_map_id:
  "(\<And>x. x \<in> set xs \<Longrightarrow> f x = Inr x) \<Longrightarrow> try_map f xs = Inr xs"
  by (induction xs) auto

lemma try_map_total:
  "(\<And>x. x \<in> set xs \<Longrightarrow> \<exists>y. f x = Inr y) \<Longrightarrow> \<exists>ys. try_map f xs = Inr ys"
  by (induction xs) (fastforce split: sum.splits)+

subsection \<open>\<^verbatim>\<open>clean\<close> row by row\<close>

lemma reset_index_fst: "map fst (reset_index df) = [0 ..< length df]"
  by (simp add: reset_index_def)

lemma reset_index_snd: "map snd (reset_index df) = map snd df"
  by (simp add: reset_index_def)

lemma reset_index_length: "length (reset_index df) = length df"
  by (simp add: reset_index_def)

lemma filters_retained:
  "dropna (\<lambda>r. cid_isna (CustomerID r))
     (mask (\<lambda>r. f64_gt_zero (Price r))
       (mask (\<lambda>r. 0 < Quantity r) df))
   = filter (\<lambda>(i, r). 0 < Quantity r \<and> f64_gt_zero (Price r) \<and> \<not> cid_isna (CustomerID r)) df"
  by (induction df) (auto simp: dropna_def mask_def)

lemma filter_retained:
  "filter (\<lambda>(i, r). 0 < Quantity r \<and> f64_gt_zero (Price r) \<and> \<not> cid_isna (CustomerID r))
     (dropna (\<lambda>r. Description r = None) df)
   = filter (\<lambda>(i, r). retained r) df"
  by (induction df) (auto simp: dropna_def retained_def)

lemma assign_CustomerID_Inr:
  "assign_CustomerID df = Inr df' \<Longrightarrow>
   try_map (\<lambda>(i, r). case astype_int (CustomerID r) of
                        Inl e \<Rightarrow> Inl e
                      | Inr c \<Rightarrow> Inr (i, r\<lparr>CustomerID := c\<rparr>)) df = Inr df'"
  by (simp add: assign_CustomerID_def split: if_splits)

lemma clean_Inr_rows:
  assumes "clean parse df = Inr out"
  shows "\<exists>df'. try_map (\<lambda>(i, r). case clean_row_of parse r of
                                     Inl e \<Rightarrow> Inl e
                                   | Inr r' \<Rightarrow> Inr (i, r'))
                 (filter (\<lambda>(i, r). retained r) df) = Inr df'
              \<and> out = reset_index df'"
proof -
  let ?F2 = "\<lambda>(i, r). case to_datetime parse (InvoiceDate r) of
                          Inl e \<Rightarrow> Inl e
                        | Inr d \<Rightarrow> Inr (i, r\<lparr>InvoiceDate := d\<rparr>)"
  let ?F6 = "\<lambda>(i, r). case astype_int (CustomerID r) of
                        Inl e \<Rightarrow> Inl e
                      | Inr c \<Rightarrow> Inr (i, r\<lparr>CustomerID := c\<rparr>)"
  let ?F7 = "\<lambda>(i, r). case feature_row r of Inl e \<Rightarrow> Inl e | Inr r' \<Rightarrow> Inr (i, r')"
  let ?S = "\<lambda>(i, r). (i, r\<lparr>Description := map_option strip (Description r)\<rparr>)"
  let ?K = "\<lambda>(i, r). 0 < Quantity r \<and> f64_gt_zero (Price r) \<and> \<not> cid_isna (CustomerID r)"
  let ?df1 = "dropna (\<lambda>r. Description r = None) df"
  from assms obtain df2 df6 df7 where
    s2: "try_map ?F2 ?df1 = Inr df2" and
    s6: "assign_CustomerID (filter ?K df2) = Inr df6" and
    s7: "try_map ?F7 df6 = Inr df7" and
    out: "out = reset_index (map ?S df7)"
    by (auto simp: clean_def Let_def filters_retained assign_InvoiceDate_def
        feature_engineering_def assign_Description_def split: sum.splits)
  have k: "try_map ?F2 (filter ?K ?df1) = Inr (filter ?K df2)"
    by (rule try_map_filter [OF s2]) (auto split: sum.splits)
  have c6: "try_map (\<lambda>x. case ?F2 x of Inl e \<Rightarrow> Inl e | Inr y \<Rightarrow> ?F6 y) (filter ?K ?df1) = Inr df6"
    using try_map_comp [OF k, of ?F6] assign_CustomerID_Inr [OF s6] by simp
  have c7: "try_map (\<lambda>x. case (case ?F2 x of Inl e \<Rightarrow> Inl e | Inr y \<Rightarrow> ?F6 y) of
                            Inl e \<Rightarrow> Inl e | Inr y \<Rightarrow> ?F7 y) (filter ?K ?df1) = Inr df7"
    using try_map_comp [OF c6, of ?F7] s7 by simp
  have c8: "try_map (\<lambda>x. case (case (case ?F2 x of Inl e \<Rightarrow> Inl e | Inr y \<Rightarrow> ?F6 y) of
                            Inl e \<Rightarrow> Inl e | Inr y \<Rightarrow> ?F7 y) of
                         Inl e \<Rightarrow> Inl e | Inr y \<Rightarrow> Inr (?S y)) (filter ?K ?df1) = Inr (map ?S df7)"
    using try_map_comp [OF c7, of "\<lambda>y. Inr (?S y)"] by (simp add: try_map_Inr_map)
  have "try_map (\<lambda>(i, r). case clean_row_of parse r of
                                     Inl e \<Rightarrow> Inl e
                                   | Inr r' \<Rightarrow> Inr (i, r'))
                 (filter (\<lambda>(i, r). retained r) df) = Inr (map ?S df7)"
    unfolding filter_retained [symmetric] c8 [symmetric]
    by (rule try_map_cong) (auto simp: clean_row_of_def split: sum.splits)
  with out show ?thesis by blast
qed

lemma clean_Inr_member:
  assumes "clean parse df = Inr out" and "(j, r') \<in> set out"
  shows "\<exists>i r. (i, r) \<in> set df \<and> retained r \<and> clean_row_of parse r = Inr r'"
proof -
  from clean_Inr_rows [OF assms(1)] obtain df' where
    t: "try_map (\<lambda>(i, r). case clean_row_of parse r of Inl e \<Rightarrow> Inl e | Inr r' \<Rightarrow> Inr (i, r'))
          (filter (\<lambda>(i, r). retained r) df) = Inr df'"
    and out: "out = reset_index df'"
    by blast
  from assms(2) out have "r' \<in> snd ` set df'"
    by (metis reset_index_snd image_eqI set_map snd_conv)
  then obtain k where "(k, r') \<in> set df'" by auto
  from try_map_Inr_set [OF t this] obtain i r where
    "(i, r) \<in> set df" "retained r"
    "(case clean_row_of parse r of Inl e \<Rightarrow> Inl e | Inr r' \<Rightarrow> Inr (i, r')) = Inr (k, r')"
    by auto
  moreover from this(3) have "clean_row_of parse r = Inr r'"
    by (cases "clean_row_of parse r") auto
  ultimately show ?thesis by blast
qed

lemma clean_row_of_fields:
  assumes "clean_row_of parse r = Inr r'"
  shows "InvoiceNo r' = InvoiceNo r" "StockCode r' = StockCode r" "Country r' = Country r"
    "Quantity r' = Quantity r" "Price r' = Price r"
    "Description r' = map_option strip (Description r)"
    "to_datetime parse (InvoiceDate r) = Inr (InvoiceDate r')"
    "astype_int (CustomerID r) = Inr (CustomerID r')"
    "TotalPrice r' = f64_mul (f64_of_int (Quantity r)) (Price r)"
    "dt (InvoiceDate r') = Inr t \<Longrightarrow> InvoiceYear r' = map_option (\<lambda>t. year (civil_of t)) t"
    "dt (InvoiceDate r') = Inr t \<Longrightarrow> InvoiceMonth r' = map_option (\<lambda>t. month (civil_of t)) t"
    "dt (InvoiceDate r') = Inr t \<Longrightarrow> YearMonth r' = map_option (\<lambda>t. (year (civil_of t), month (civil_of t))) t"
    "dt (InvoiceDate r') = Inr t \<Longrightarrow> InvoiceWeek r' = map_option ts_week t"
    "dt (InvoiceDate r') = Inr t \<Longrightarrow> InvoiceDay r' = map_option ts_day_name t"
  using assms
  by (auto simp: clean_row_of_def feature_row_def split: sum.splits)

lemma try_map_Inr_nth:
  "try_map f xs = Inr ys \<Longrightarrow> k < length xs \<Longrightarrow> f (xs ! k) = Inr (ys ! k)"
proof (induction xs arbitrary: ys k)
  case Nil
  then show ?case by simp
next
  case (Cons x xs)
  then show ?case
    by (cases k) (auto split: sum.splits)
qed

lemma try_map_snd:
  "try_map (\<lambda>(i, r). case f r of Inl e \<Rightarrow> Inl e | Inr r' \<Rightarrow> Inr (i, r')) xs = Inr ys \<Longrightarrow>
   try_map f (map snd xs) = Inr (map snd ys) \<and> map fst ys = map fst xs"
  by (induction xs arbitrary: ys) (auto split: sum.splits)

lemma clean_Inr_rowwise:
  assumes "clean parse df = Inr out"
  shows "try_map (clean_row_of parse) (map snd (filter (\<lambda>(i, r). retained r) df))
           = Inr (map snd out)"
    and "map fst out = [0 ..< length out]"
    and "length out = length (filter (\<lambda>(i, r). retained r) df)"
proof -
  from clean_Inr_rows [OF assms] obtain df' where
    t: "try_map (\<lambda>(i, r). case clean_row_of parse r of Inl e \<Rightarrow> Inl e | Inr r' \<Rightarrow> Inr (i, r'))
          (filter (\<lambda>(i, r). retained r) df) = Inr df'"
    and out: "out = reset_index df'"
    by blast
  from try_map_snd [OF t] out
  show "try_map (clean_row_of parse) (map snd (filter (\<lambda>(i, r). retained r) df))
           = Inr (map snd out)"
    by (simp add: reset_index_snd)
  from out show "map fst out = [0 ..< length out]"
    by (simp add: reset_index_fst reset_index_length)
  from try_map_Inr_length [OF t] out
  show "length out = length (filter (\<lambda>(i, r). retained r) df)"
    by (simp add: reset_index_length)
qed

lemma astype_int_Inr: "astype_int c = Inr c' \<Longrightarrow> \<exists>n. c' = CidInt n"
  by (cases c rule: astype_int.cases) (auto split: if_splits)


lemma try_map_Inr_map_eq:
  "try_map f xs = Inr ys \<Longrightarrow> (\<And>x y. f x = Inr y \<Longrightarrow> g y = h x) \<Longrightarrow> map g ys = map h xs"
  by (induction xs arbitrary: ys) (auto split: sum.splits)

lemma float_to_int_trunc:
  "float_to_int q = (if 0 \<le> q then \<lfloor>q\<rfloor> else \<lceil>q\<rceil>)"
  by (simp add: float_to_int_def ceiling_def)

lemma float_to_int_toward_zero:
  "\<bar>of_int (float_to_int q)\<bar> \<le> \<bar>q\<bar> \<and> \<bar>q\<bar> < \<bar>of_int (float_to_int q)\<bar> + 1"
proof (cases "0 \<le> q")
  case True
  then show ?thesis
    by (simp add: float_to_int_def) linarith
next
  case False
  then have "0 \<le> \<lfloor>- q\<rfloor>" by simp
  with False show ?thesis
    by (simp add: float_to_int_def) linarith
qed

lemma retained_sample_frame:
  "filter (\<lambda>(i, r). retained r) sample_frame = [(0, mug_row), (3, plate_row)]"
  by (simp add: sample_frame_def retained_def mug_row_def plate_row_def)


subsection \<open>Which errors a step can raise\<close>

lemma try_map_Inl_only:
  assumes "x \<in> set xs" and "f x = Inl e" and "\<And>y e'. y \<in> set xs \<Longrightarrow> f y = Inl e' \<Longrightarrow> e' = e"
  shows "try_map f xs = Inl e"
proof -
  from try_map_fails [of x xs f e, OF assms(1,2)] obtain e' where e': "try_map f xs = Inl e'" by blast
  from try_map_Inl_set [OF e'] assms(3) have "e' = e" by blast
  with e' show ?thesis by simp
qed

lemma to_datetime_Inl: "to_datetime parse d = Inl e \<Longrightarrow> e = ParseError"
  by (cases d) (auto split: option.splits)

lemma assign_InvoiceDate_Inl: "assign_InvoiceDate parse df = Inl e \<Longrightarrow> e = ParseError"
  unfolding assign_InvoiceDate_def
  by (drule try_map_Inl_set) (auto split: sum.splits dest: to_datetime_Inl)


lemma astype_int_Inl_finite:
  "cid_isfinite c \<Longrightarrow> astype_int c = Inl e \<Longrightarrow> False"
  by (cases c rule: astype_int.cases) auto

lemma assign_CustomerID_Inl_iff:
  "assign_CustomerID df = Inl IntCastingNaNError \<longleftrightarrow>
   list_ex (\<lambda>(i, r). \<not> cid_isfinite (CustomerID r)) df"
proof
  assume a: "assign_CustomerID df = Inl IntCastingNaNError"
  show "list_ex (\<lambda>(i, r). \<not> cid_isfinite (CustomerID r)) df"
  proof (rule ccontr)
    assume n: "\<not> list_ex (\<lambda>(i, r). \<not> cid_isfinite (CustomerID r)) df"
    with a have "try_map (\<lambda>(i, r). case astype_int (CustomerID r) of
                                 Inl e \<Rightarrow> Inl e
                               | Inr c \<Rightarrow> Inr (i, r\<lparr>CustomerID := c\<rparr>)) df = Inl IntCastingNaNError"
      by (simp add: assign_CustomerID_def)
    from try_map_Inl_set [OF this] obtain i r where
      m: "(i, r) \<in> set df" and e: "astype_int (CustomerID r) = Inl IntCastingNaNError"
      by (auto split: sum.splits)
    from n m have "cid_isfinite (CustomerID r)"
      by (auto simp: list_ex_iff)
    from astype_int_Inl_finite [OF this e] show False .
  qed
next
  assume "list_ex (\<lambda>(i, r). \<not> cid_isfinite (CustomerID r)) df"
  then show "assign_CustomerID df = Inl IntCastingNaNError"
    by (simp add: assign_CustomerID_def)
qed

lemma feature_engineering_Inl: "feature_engineering df = Inl e \<Longrightarrow> e = AttributeError"
  unfolding feature_engineering_def
  by (drule try_map_Inl_set)
    (auto simp: feature_row_def split: sum.splits date_cell.splits elim: dt.elims)

lemma cid_infinite:
  "\<not> cid_isfinite c \<and> \<not> cid_isna c \<longleftrightarrow> c = CidFloat PInf \<or> c = CidFloat NInf"
  by (cases c rule: cid_isna.cases) auto

lemma clean_IntCastingNaNError_iff_cast:
  "clean parse df = Inl IntCastingNaNError \<longleftrightarrow>
   (\<exists>df2. assign_InvoiceDate parse (dropna (\<lambda>r. Description r = None) df) = Inr df2 \<and>
      list_ex (\<lambda>(i, r). \<not> cid_isfinite (CustomerID r))
        (filter (\<lambda>(i, r). 0 < Quantity r \<and> f64_gt_zero (Price r) \<and> \<not> cid_isna (CustomerID r)) df2))"
  by (auto simp: clean_def Let_def filters_retained assign_CustomerID_Inl_iff [symmetric]
      split: sum.splits dest: assign_InvoiceDate_Inl feature_engineering_Inl)


subsection \<open>Stripping\<close>

lemma dropWhile_hd: "dropWhile P xs \<noteq> [] \<Longrightarrow> \<not> P (hd (dropWhile P xs))"
  by (induction xs) auto

lemma strip_Nil_iff: "strip s = [] \<longleftrightarrow> (\<forall>c \<in> set s. isspace c)"
proof -
  have "strip s = [] \<longleftrightarrow> (\<forall>c \<in> set (dropWhile isspace s). isspace c)"
    by (simp add: strip_def dropWhile_eq_Nil_conv)
  also have "\<dots> \<longleftrightarrow> dropWhile isspace s = []"
  proof
    assume a: "\<forall>c \<in> set (dropWhile isspace s). isspace c"
    show "dropWhile isspace s = []"
    proof (rule ccontr)
      assume n: "dropWhile isspace s \<noteq> []"
      then have "hd (dropWhile isspace s) \<in> set (dropWhile isspace s)" by simp
      with a dropWhile_hd [OF n] show False by blast
    qed
  next
    assume "dropWhile isspace s = []"
    then show "\<forall>c \<in> set (dropWhile isspace s). isspace c"
      by (simp del: dropWhile_eq_Nil_conv)
  qed
  also have "\<dots> \<longleftrightarrow> (\<forall>c \<in> set s. isspace c)"
    by (simp add: dropWhile_eq_Nil_conv)
  finally show ?thesis .
qed

lemma strip_last: "strip s \<noteq> [] \<Longrightarrow> \<not> isspace (last (strip s))"
proof -
  let ?u = "dropWhile isspace (rev (dropWhile isspace s))"
  assume "strip s \<noteq> []"
  then have u: "?u \<noteq> []" by (simp add: strip_def)
  have "last (strip s) = hd ?u"
    using u by (simp add: strip_def last_rev)
  with dropWhile_hd [OF u] show ?thesis by simp
qed

lemma strip_hd: "strip s \<noteq> [] \<Longrightarrow> \<not> isspace (hd (strip s))"
proof -
  let ?t = "dropWhile isspace s"
  let ?u = "dropWhile isspace (rev ?t)"
  assume "strip s \<noteq> []"
  then have u: "?u \<noteq> []" by (simp add: strip_def)
  have t: "?t \<noteq> []"
  proof
    assume "?t = []"
    then have "?u = []" by (simp del: dropWhile_eq_Nil_conv)
    with u show False by contradiction
  qed
  have "rev ?t = takeWhile isspace (rev ?t) @ ?u" by simp
  then have "last (rev ?t) = last ?u"
    using u by (metis last_appendR)
  then have "hd ?t = last ?u"
    using t by (simp add: last_rev)
  moreover have "hd (strip s) = last ?u"
    using u by (simp add: strip_def hd_rev)
  ultimately show ?thesis
    using dropWhile_hd [OF t] by simp
qed

lemma strip_strip: "strip (strip s) = strip s"
proof (cases "strip s = []")
  case True
  show ?thesis unfolding True by (simp add: strip_def)
next
  case False
  from strip_hd [OF False] False have a: "dropWhile isspace (strip s) = strip s"
    by (cases "strip s") auto
  from strip_last [OF False] False have "dropWhile isspace (rev (strip s)) = rev (strip s)"
    by (cases "rev (strip s)") (auto simp: last_rev [symmetric] hd_rev)
  with a show ?thesis
    by (simp add: strip_def [of "strip s"])
qed


subsection \<open>Ranges of the calendar functions\<close>

lemma month_cases:
  "1 \<le> m \<Longrightarrow> m \<le> 12 \<Longrightarrow>
   m = 1 \<or> m = 2 \<or> m = 3 \<or> m = 4 \<or> m = 5 \<or> m = 6 \<or> m = 7 \<or> m = 8 \<or> m = 9 \<or> m = 10 \<or>
   m = 11 \<or> m = (12 :: int)"
  by arith

lemma get_day_of_year_range:
  assumes "1 \<le> m" "m \<le> 12" "1 \<le> d" "d \<le> get_days_in_month y m"
  shows "1 \<le> get_day_of_year y m d \<and> get_day_of_year y m d \<le> 366"
  using month_cases [OF assms(1,2)] assms(3,4)
  by (auto simp: get_day_of_year_def get_days_in_month_def month_offset_def days_per_month_def
      split: if_splits)

lemma dayofweek_range: "0 \<le> dayofweek y m d \<and> dayofweek y m d \<le> 6"
  by (simp add: dayofweek_def Let_def) 

lemma get_week_of_year_range:
  assumes "1 \<le> m" "m \<le> 12" "1 \<le> d" "d \<le> get_days_in_month y m"
  shows "1 \<le> get_week_of_year y m d \<and> get_week_of_year y m d \<le> 53"
proof -
  from get_day_of_year_range [OF assms] dayofweek_range [of y m d]
  show ?thesis
    by (auto simp: get_week_of_year_def Let_def)
qed

lemma civil_of_valid: "valid_civil (civil_of t)"
  using civil_of [of t] by simp

lemma ts_week_range: "1 \<le> ts_week t \<and> ts_week t \<le> 53"
  using civil_of_valid [of t]
  by (simp add: ts_week_def Let_def valid_civil_def get_week_of_year_range)

lemma ts_month_range: "1 \<le> month (civil_of t) \<and> month (civil_of t) \<le> 12"
  using civil_of_valid [of t] by (simp add: valid_civil_def)

lemma ts_day_name_in: "ts_day_name t \<in> set day_names"
proof -
  have "length day_names = 7"
    by (simp add: day_names_def)
  moreover have "ts_dayofweek t \<le> 6"
    using dayofweek_range by (simp add: ts_dayofweek_def Let_def)
  ultimately have "nat (ts_dayofweek t) < length day_names"
    by simp
  then show ?thesis
    unfolding ts_day_name_def by (rule nth_mem)
qed

lemma to_datetime_Inr:
  "to_datetime parse d = Inr d' \<Longrightarrow> d' = DateNull \<or> (\<exists>t. d' = DateStamp t)"
  by (cases d) (auto split: option.splits)


subsection \<open>Cleaning a cleaned frame\<close>

lemma feature_row_again:
  "clean_row_of parse r0 = Inr r \<Longrightarrow> feature_row r = Inr r"
  by (auto simp: clean_row_of_def feature_row_def split: sum.splits)

lemma reset_index_id: "map fst df = [0 ..< length df] \<Longrightarrow> reset_index df = df"
  unfolding reset_index_def by (metis zip_map_fst_snd)

lemma clean_fixpoint:
  fixes out :: "clean_row frame"
  assumes desc: "\<And>j r. (j, r) \<in> set out \<Longrightarrow> \<exists>s. Description r = Some s \<and> strip s = s"
    and qty: "\<And>j r. (j, r) \<in> set out \<Longrightarrow> 0 < Quantity r"
    and price: "\<And>j r. (j, r) \<in> set out \<Longrightarrow> f64_gt_zero (Price r)"
    and cid: "\<And>j r. (j, r) \<in> set out \<Longrightarrow> \<exists>n. CustomerID r = CidInt n"
    and date: "\<And>j r. (j, r) \<in> set out \<Longrightarrow> to_datetime parse (InvoiceDate r) = Inr (InvoiceDate r)"
    and feat: "\<And>j r. (j, r) \<in> set out \<Longrightarrow> feature_row r = Inr r"
    and index: "map fst out = [0 ..< length out]"
  shows "clean parse out = Inr out"
proof -
  have d: "dropna (\<lambda>r. Description r = None) out = out"
    unfolding dropna_def using desc by (intro filter_True) fastforce
  have a: "assign_InvoiceDate parse out = Inr out"
    unfolding assign_InvoiceDate_def using date by (intro try_map_id) auto
  have q: "mask (\<lambda>r. 0 < Quantity r) out = out"
    unfolding mask_def using qty by (intro filter_True) auto
  have p: "mask (\<lambda>r. f64_gt_zero (Price r)) out = out"
    unfolding mask_def using price by (intro filter_True) auto
  have c: "dropna (\<lambda>r. cid_isna (CustomerID r)) out = out"
    unfolding dropna_def using cid by (intro filter_True) fastforce
  have n: "\<not> list_ex (\<lambda>(i, r). \<not> cid_isfinite (CustomerID r)) out"
    using cid by (fastforce simp: list_ex_iff)
  have "try_map (\<lambda>(i, r). case astype_int (CustomerID r) of
                                 Inl e \<Rightarrow> Inl e
                               | Inr c \<Rightarrow> Inr (i, r\<lparr>CustomerID := c\<rparr>)) out = Inr out"
    using cid by (intro try_map_id) fastforce
  with n have i: "assign_CustomerID out = Inr out"
    by (simp add: assign_CustomerID_def)
  have f: "feature_engineering out = Inr out"
    unfolding feature_engineering_def using feat by (intro try_map_id) auto
  have s: "assign_Description out = out"
    unfolding assign_Description_def using desc by (intro map_idI) fastforce
  show ?thesis
    by (simp add: clean_def d a q p c i f s reset_index_id [OF index])
qed

lemma clean_Inr_fixpoint_rows:
  assumes "clean parse df = Inr out" and "(j, r) \<in> set out"
  shows "\<exists>s. Description r = Some s \<and> strip s = s"
    and "to_datetime parse (InvoiceDate r) = Inr (InvoiceDate r)"
    and "feature_row r = Inr r"
proof -
  from clean_Inr_member [OF assms] obtain i r0 where
    r0: "(i, r0) \<in> set df" "retained r0" "clean_row_of parse r0 = Inr r"
    by blast
  from r0(2) obtain s where s: "Description r0 = Some s"
    by (auto simp: retained_def)
  with clean_row_of_fields(6) [OF r0(3)] have "Description r = Some (strip s)"
    by simp
  then show "\<exists>s. Description r = Some s \<and> strip s = s"
    by (simp add: strip_strip)
  from to_datetime_Inr [OF clean_row_of_fields(7) [OF r0(3)]]
  show "to_datetime parse (InvoiceDate r) = Inr (InvoiceDate r)"
    by auto
  from r0(3) show "feature_row r = Inr r"
    by (rule feature_row_again)
qed


lemma clean_Inr_nth:
  assumes "clean parse df = Inr out" and "k < length out"
  shows "clean_row_of parse (snd (filter (\<lambda>(i, r). retained r) df ! k)) = Inr (snd (out ! k))"
    and "retained (snd (filter (\<lambda>(i, r). retained r) df ! k))"
proof -
  let ?xs = "map snd (filter (\<lambda>(i, r). retained r) df)"
  from clean_Inr_rowwise [OF assms(1)] assms(2)
  have t: "try_map (clean_row_of parse) ?xs = Inr (map snd out)" and k: "k < length ?xs"
    by simp_all
  from try_map_Inr_nth [OF t k] k assms(2)
  show "clean_row_of parse (snd (filter (\<lambda>(i, r). retained r) df ! k)) = Inr (snd (out ! k))"
    by simp
  from k have "filter (\<lambda>(i, r). retained r) df ! k \<in> set (filter (\<lambda>(i, r). retained r) df)"
    by (intro nth_mem) simp
  then show "retained (snd (filter (\<lambda>(i, r). retained r) df ! k))"
    by (auto simp: case_prod_unfold)
qed


subsection \<open>The scenario of the specification\<close>

text \<open>
  C6. The row with Description \<^verbatim>\<open>" Mug "\<close>, Quantity 3, Price 2.50, Customer ID 17850.0 and
  InvoiceDate \<^verbatim>\<open>"2010-12-01 08:26"\<close>, whatever its other columns and its index label, is
  cleaned to a row with Description \<^verbatim>\<open>"Mug"\<close>, TotalPrice 7.50, CustomerID 17850,
  InvoiceYear 2010, InvoiceMonth 12, InvoiceWeek 48 and InvoiceDay \<^verbatim>\<open>"Wednesday"\<close>.
\<close>

theorem clean_scenario_mug:
  "clean parse_iso
     [(i, \<lparr>InvoiceNo = no, StockCode = code, Description = Some '' Mug '', Quantity = 3,
           InvoiceDate = DateText ''2010-12-01 08:26'', Price = Fin (5 / 2),
           CustomerID = CidFloat (Fin 17850), Country = country\<rparr>)]
   = Inr [(0, \<lparr>InvoiceNo = no, StockCode = code, Description = Some ''Mug'', Quantity = 3,
               InvoiceDate = DateStamp (Timestamp
                 \<lparr>year = 2010, month = 12, day = 1, hour = 8, minute = 26, second = 0\<rparr>),
               Price = Fin (5 / 2), CustomerID = CidInt 17850, Country = country,
               TotalPrice = Fin (15 / 2), InvoiceYear = Some 2010, InvoiceMonth = Some 12,
               YearMonth = Some (2010, 12), InvoiceWeek = Some 48,
               InvoiceDay = Some ''Wednesday''\<rparr>)]"
  by (simp add: clean_defs calendar_defs sample_eval Let_def)

subsection \<open>Invariants of the output\<close>

text \<open>
  C1. When \<^verbatim>\<open>clean\<close> succeeds, every record of its output has a Description and a
  CustomerID that are not missing (the CustomerID is an integer), a Quantity above 0 and
  a Price above 0.
\<close>

theorem clean_output_invariants:
  assumes "clean parse df = Inr out" and "(j, r) \<in> set out"
  shows "Description r \<noteq> None \<and> \<not> cid_isna (CustomerID r) \<and> (\<exists>n. CustomerID r = CidInt n) \<and>
         0 < Quantity r \<and> f64_gt_zero (Price r)"
proof -
  from clean_Inr_member [OF assms] obtain i r0 where
    r0: "retained r0" "clean_row_of parse r0 = Inr r" and "(i, r0) \<in> set df"
    by blast
  from astype_int_Inr clean_row_of_fields(8) [OF r0(2)] obtain n where "CustomerID r = CidInt n"
    by blast
  with r0(1) clean_row_of_fields(4,5,6) [OF r0(2)] show ?thesis
    by (auto simp: retained_def)
qed

theorem clean_output_invariants_witness:
  "clean parse_iso sample_frame = Inr [(0, mug_clean), (1, plate_clean)] \<and>
   (1, plate_clean) \<in> set [(0, mug_clean), (1, plate_clean)] \<and>
   Description plate_clean \<noteq> None \<and> \<not> cid_isna (CustomerID plate_clean) \<and>
   (\<exists>n. CustomerID plate_clean = CidInt n) \<and>
   0 < Quantity plate_clean \<and> f64_gt_zero (Price plate_clean)"
  using clean_output_invariants [OF clean_sample_frame, of 1 plate_clean] clean_sample_frame
  by simp

text \<open>
  C2. In every record of the output, TotalPrice is the product of that record's Quantity
  and Price, as float64 multiplication computes it from the two operands: the product is
  taken at the precision of Price and no further rounding step is applied to it.
\<close>

theorem clean_TotalPrice:
  assumes "clean parse df = Inr out" and "(j, r) \<in> set out"
  shows "TotalPrice r = f64_mul (f64_of_int (Quantity r)) (Price r)"
proof -
  from clean_Inr_member [OF assms] obtain i r0 where
    r0: "clean_row_of parse r0 = Inr r" and "(i, r0) \<in> set df"
    by blast
  from clean_row_of_fields(4,5,9) [OF r0] show ?thesis by simp
qed

theorem clean_TotalPrice_witness:
  "clean parse_iso sample_frame = Inr [(0, mug_clean), (1, plate_clean)] \<and>
   (0, mug_clean) \<in> set [(0, mug_clean), (1, plate_clean)] \<and>
   TotalPrice mug_clean = f64_mul (f64_of_int (Quantity mug_clean)) (Price mug_clean)"
  using clean_TotalPrice [OF clean_sample_frame, of 0 mug_clean] clean_sample_frame
  by simp

subsection \<open>The integer cast of the customer identifier\<close>

text \<open>
  C5, as the code has it. When \<^verbatim>\<open>clean\<close> succeeds, the record it makes of a retained
  record whose Customer ID is the finite float \<open>q\<close>, with an integer part within the int64
  range, has the integer CustomerID obtained from \<open>q\<close> by truncation toward zero: the
  floor of a non-negative \<open>q\<close>, the ceiling of a negative one, never farther from zero
  than \<open>q\<close> and less than one away from it. The \<open>k\<close>-th record of the output is the one
  made of the \<open>k\<close>-th retained record of the input.
\<close>

theorem clean_CustomerID_truncates:
  assumes "clean parse df = Inr out"
    and "k < length out"
    and "CustomerID (snd (filter (\<lambda>(i, r). retained r) df ! k)) = CidFloat (Fin q)"
    and "in_int64 (if 0 \<le> q then \<lfloor>q\<rfloor> else \<lceil>q\<rceil>)"
  shows "\<exists>z. CustomerID (snd (out ! k)) = CidInt z \<and>
             z = (if 0 \<le> q then \<lfloor>q\<rfloor> else \<lceil>q\<rceil>) \<and>
             \<bar>of_int z\<bar> \<le> \<bar>q\<bar> \<and> \<bar>q\<bar> < \<bar>of_int z\<bar> + 1"
proof -
  let ?xs = "map snd (filter (\<lambda>(i, r). retained r) df)"
  from clean_Inr_rowwise [OF assms(1)] assms(2)
  have t: "try_map (clean_row_of parse) ?xs = Inr (map snd out)" and k: "k < length ?xs"
    by simp_all
  from try_map_Inr_nth [OF t k] k assms(2)
  have "clean_row_of parse (snd (filter (\<lambda>(i, r). retained r) df ! k)) = Inr (snd (out ! k))"
    by simp
  from clean_row_of_fields(8) [OF this] assms(3)
  have "CustomerID (snd (out ! k)) =
          CidInt (if in_int64 (float_to_int q) then float_to_int q else - (2 ^ 63))"
    by simp
  with assms(4) have "CustomerID (snd (out ! k)) = CidInt (float_to_int q)"
    by (simp add: float_to_int_trunc)
  with float_to_int_trunc [of q] float_to_int_toward_zero [of q] show ?thesis
    by simp
qed

theorem clean_CustomerID_truncates_witness:
  "clean parse_iso sample_frame = Inr [(0, mug_clean), (1, plate_clean)] \<and>
   (1 :: nat) < length [(0 :: nat, mug_clean), (1, plate_clean)] \<and>
   CustomerID (snd (filter (\<lambda>(i, r). retained r) sample_frame ! 1)) = CidFloat (Fin (24691 / 2)) \<and>
   in_int64 12345 \<and>
   CustomerID (snd ([(0 :: nat, mug_clean), (1, plate_clean)] ! 1)) = CidInt 12345"
  using clean_CustomerID_truncates [OF clean_sample_frame, of 1 "24691 / 2"] clean_sample_frame
  by (simp add: retained_sample_frame plate_row_def floor_numeral_div in_int64_def)

text \<open>
  C5 as stated speaks of every numeric Customer ID that is retained. The float
  9223372036854775808 (\<open>2^63\<close>) is finite, so the cast does not raise, and its integer
  part is itself; it does not fit in int64, and the CustomerID of the output is
  -9223372036854775808.
\<close>

theorem clean_huge_id_counterexample:
  "clean parse_iso [(0, mug_row\<lparr>CustomerID := CidFloat (Fin 9223372036854775808)\<rparr>)]
     = Inr [(0, mug_clean\<lparr>CustomerID := CidInt (- 9223372036854775808)\<rparr>)]"
  by (simp add: mug_row_def mug_clean_def clean_defs calendar_defs sample_eval Let_def)

subsection \<open>Order of the rows and index of the output\<close>

text \<open>
  C9. When \<^verbatim>\<open>clean\<close> succeeds, the rows of the output are the retained rows of the input,
  each transformed on its own, in their original order (the columns that \<^verbatim>\<open>clean\<close> does not
  assign are unchanged, row for row); the output has at most as many rows as the input;
  and the index labels of the output are 0, 1, 2, ... without a gap.
\<close>

theorem clean_keeps_order:
  assumes "clean parse df = Inr out"
  shows "try_map (clean_row_of parse) (map snd (filter (\<lambda>(i, r). retained r) df)) = Inr (map snd out) \<and>
         map (\<lambda>(j, r). (InvoiceNo r, StockCode r, Quantity r, Price r, Country r)) out =
           map (\<lambda>(i, r). (InvoiceNo r, StockCode r, Quantity r, Price r, Country r))
             (filter (\<lambda>(i, r). retained r) df) \<and>
         length out \<le> length df \<and>
         map fst out = [0 ..< length out]"
proof -
  let ?xs = "map snd (filter (\<lambda>(i, r). retained r) df)"
  note rw = clean_Inr_rowwise [OF assms]
  have "map (\<lambda>r. (InvoiceNo r, StockCode r, Quantity r, Price r, Country r)) (map snd out) =
        map (\<lambda>r. (InvoiceNo r, StockCode r, Quantity r, Price r, Country r)) ?xs"
    by (rule try_map_Inr_map_eq [OF rw(1)]) (simp add: clean_row_of_fields)
  then have "map (\<lambda>(j, r). (InvoiceNo r, StockCode r, Quantity r, Price r, Country r)) out =
           map (\<lambda>(i, r). (InvoiceNo r, StockCode r, Quantity r, Price r, Country r))
             (filter (\<lambda>(i, r). retained r) df)"
    by (simp add: case_prod_unfold comp_def)
  moreover have "length out \<le> length df"
    unfolding rw(3) by (rule length_filter_le)
  ultimately show ?thesis using rw(1,2) by simp
qed

theorem clean_keeps_order_witness:
  "clean parse_iso sample_frame = Inr [(0, mug_clean), (1, plate_clean)] \<and>
   map (\<lambda>(j, r). (InvoiceNo r, StockCode r, Quantity r, Price r, Country r))
     [(0 :: nat, mug_clean), (1, plate_clean)] =
   map (\<lambda>(i, r). (InvoiceNo r, StockCode r, Quantity r, Price r, Country r))
     [(0 :: nat, mug_row), (3, plate_row)] \<and>
   length [(0 :: nat, mug_clean), (1, plate_clean)] \<le> length sample_frame \<and>
   map fst [(0 :: nat, mug_clean), (1, plate_clean)] = [0 ..< 2]"
proof -
  have len: "length sample_frame = 4"
    by (simp add: sample_frame_def)
  from clean_keeps_order [OF clean_sample_frame] clean_sample_frame len show ?thesis
    by (simp add: retained_sample_frame eval_nat_numeral)
qed

subsection \<open>Dates that cannot be parsed\<close>

text \<open>
  C3, as the code has it. If a record whose Description is not missing holds an
  InvoiceDate text that is not date-like, \<^verbatim>\<open>clean\<close> fails with a parse error and produces
  no data set, whatever the other records are: there is no per-row recovery.
\<close>

theorem clean_bad_date_fails:
  assumes "(i, r) \<in> set df" and "Description r \<noteq> None"
    and "InvoiceDate r = DateText s" and "parse s = None"
  shows "clean parse df = Inl ParseError"
proof -
  let ?df1 = "dropna (\<lambda>r. Description r = None) df"
  let ?F = "\<lambda>(i, r). case to_datetime parse (InvoiceDate r) of
                         Inl e \<Rightarrow> Inl e
                       | Inr d \<Rightarrow> Inr (i, r\<lparr>InvoiceDate := d\<rparr>)"
  from assms(1,2) have m: "(i, r) \<in> set ?df1"
    by (simp add: dropna_def)
  from assms(3,4) have f: "?F (i, r) = Inl ParseError"
    by simp
  have "try_map ?F ?df1 = Inl ParseError"
    by (rule try_map_Inl_only [of "(i, r)" ?df1 ?F, OF m f])
      (auto split: sum.splits dest: to_datetime_Inl)
  then show ?thesis
    by (simp add: clean_def assign_InvoiceDate_def)
qed

theorem clean_bad_date_fails_witness:
  "(1, mug_row\<lparr>InvoiceDate := DateText ''not a date''\<rparr>)
     \<in> set [(0 :: nat, mug_row), (1, mug_row\<lparr>InvoiceDate := DateText ''not a date''\<rparr>)] \<and>
   Description (mug_row\<lparr>InvoiceDate := DateText ''not a date''\<rparr>) \<noteq> None \<and>
   InvoiceDate (mug_row\<lparr>InvoiceDate := DateText ''not a date''\<rparr>) = DateText ''not a date'' \<and>
   parse_iso ''not a date'' = None \<and>
   clean parse_iso [(0, mug_row), (1, mug_row\<lparr>InvoiceDate := DateText ''not a date''\<rparr>)]
     = Inl ParseError"
  using clean_bad_date_fails [of 1 "mug_row\<lparr>InvoiceDate := DateText ''not a date''\<rparr>"
      "[(0, mug_row), (1, mug_row\<lparr>InvoiceDate := DateText ''not a date''\<rparr>)]"
      "''not a date''" parse_iso]
  by (simp add: mug_row_def parse_iso_def)

text \<open>
  C3 as stated speaks of any InvoiceDate value of the input. It fails on a record whose
  Description is missing: line 21 drops the record before line 24 parses the dates, so
  its InvoiceDate is never read and \<^verbatim>\<open>clean\<close> succeeds.
\<close>

theorem clean_bad_date_dropped_counterexample:
  "parse_iso ''not a date'' = None \<and>
   clean parse_iso
     [(0, mug_row\<lparr>Description := None, InvoiceDate := DateText ''not a date''\<rparr>), (1, mug_row)]
     = Inr [(0, mug_clean)]"
  by (simp add: mug_row_def mug_clean_def parse_iso_def [of "''not a date''"]
      clean_defs calendar_defs sample_eval Let_def)


subsection \<open>Failure of the integer cast\<close>

text \<open>
  C10, as the code has it. The cast of line 32 is applied after line 31 has dropped the
  records without Customer ID, so a missing value never reaches it. Its failure branch
  (IntCastingNaNError) is reached exactly when the dates of the records with a
  Description parse and a retained record has an infinite Customer ID.
\<close>

theorem clean_cast_fails_iff:
  "clean parse df = Inl IntCastingNaNError \<longleftrightarrow>
   (\<forall>(i, r) \<in> set df. Description r \<noteq> None \<longrightarrow> to_datetime parse (InvoiceDate r) \<noteq> Inl ParseError) \<and>
   (\<exists>(i, r) \<in> set df. retained r \<and> (CustomerID r = CidFloat PInf \<or> CustomerID r = CidFloat NInf))"
proof -
  let ?df1 = "dropna (\<lambda>r. Description r = None) df"
  let ?F = "\<lambda>(i, r). case to_datetime parse (InvoiceDate r) of
                         Inl e \<Rightarrow> Inl e
                       | Inr d \<Rightarrow> Inr (i, r\<lparr>InvoiceDate := d\<rparr>)"
  let ?K = "\<lambda>(i, r). 0 < Quantity r \<and> f64_gt_zero (Price r) \<and> \<not> cid_isna (CustomerID r)"
  let ?N = "\<lambda>(i, r). \<not> cid_isfinite (CustomerID r)"
  have df1: "\<And>i r. (i, r) \<in> set ?df1 \<longleftrightarrow> (i, r) \<in> set df \<and> Description r \<noteq> None"
    by (auto simp: dropna_def)
  show ?thesis
  proof
    assume "clean parse df = Inl IntCastingNaNError"
    then obtain df2 where t: "try_map ?F ?df1 = Inr df2" and ex: "list_ex ?N (filter ?K df2)"
      by (auto simp: clean_IntCastingNaNError_iff_cast assign_InvoiceDate_def)
    have "to_datetime parse (InvoiceDate r) \<noteq> Inl ParseError"
      if "(i, r) \<in> set df" "Description r \<noteq> None" for i r
    proof -
      from that have "(i, r) \<in> set ?df1" by (simp add: df1)
      from try_map_Inr_all [OF t this] show ?thesis
        by (auto split: sum.splits)
    qed
    moreover
    from ex obtain j r2 where r2: "(j, r2) \<in> set df2" "?K (j, r2)" "?N (j, r2)"
      by (auto simp: list_ex_iff)
    from try_map_Inr_set [OF t r2(1)] obtain i r where
      r: "(i, r) \<in> set ?df1" "?F (i, r) = Inr (j, r2)"
      by auto
    from r(2) have "CustomerID r2 = CustomerID r" "Quantity r2 = Quantity r" "Price r2 = Price r"
      by (auto split: sum.splits)
    with r2(2,3) r(1) have "(i, r) \<in> set df" "retained r"
      "CustomerID r = CidFloat PInf \<or> CustomerID r = CidFloat NInf"
      by (auto simp: df1 retained_def cid_infinite [symmetric])
    ultimately show "(\<forall>(i, r) \<in> set df. Description r \<noteq> None \<longrightarrow>
                        to_datetime parse (InvoiceDate r) \<noteq> Inl ParseError) \<and>
        (\<exists>(i, r) \<in> set df. retained r \<and>
            (CustomerID r = CidFloat PInf \<or> CustomerID r = CidFloat NInf))"
      by blast
  next
    assume a: "(\<forall>(i, r) \<in> set df. Description r \<noteq> None \<longrightarrow>
                        to_datetime parse (InvoiceDate r) \<noteq> Inl ParseError) \<and>
        (\<exists>(i, r) \<in> set df. retained r \<and>
            (CustomerID r = CidFloat PInf \<or> CustomerID r = CidFloat NInf))"
    have "\<exists>y. ?F x = Inr y" if "x \<in> set ?df1" for x
    proof -
      obtain i r where x: "x = (i, r)" by (cases x)
      with that a have "to_datetime parse (InvoiceDate r) \<noteq> Inl ParseError"
        by (auto simp: df1)
      then obtain d where "to_datetime parse (InvoiceDate r) = Inr d"
        by (cases "to_datetime parse (InvoiceDate r)") (auto dest: to_datetime_Inl)
      with x show ?thesis by simp
    qed
    from try_map_total [of ?df1 ?F, OF this] obtain df2 where t: "try_map ?F ?df1 = Inr df2"
      by blast
    from a obtain i r where r: "(i, r) \<in> set df" "retained r"
      "CustomerID r = CidFloat PInf \<or> CustomerID r = CidFloat NInf"
      by blast
    then have "(i, r) \<in> set ?df1"
      by (simp add: df1 retained_def)
    from try_map_Inr_all [OF t this] obtain y where y: "y \<in> set df2" "?F (i, r) = Inr y"
      by blast
    from y(2) r(2,3) have "?K y" "?N y"
      by (auto simp: retained_def split: sum.splits)
    with y(1) have "list_ex ?N (filter ?K df2)"
      by (auto simp: list_ex_iff)
    with t show "clean parse df = Inl IntCastingNaNError"
      by (auto simp: clean_IntCastingNaNError_iff_cast assign_InvoiceDate_def)
  qed
qed

theorem clean_cast_fails_iff_witness:
  "clean parse_iso [(0, mug_row), (1, mug_row\<lparr>CustomerID := CidFloat NaN\<rparr>)] \<noteq> Inl IntCastingNaNError"
  using clean_cast_fails_iff [of parse_iso "[(0, mug_row), (1, mug_row\<lparr>CustomerID := CidFloat NaN\<rparr>)]"]
  by (simp add: mug_row_def retained_def)

text \<open>
  C10 as stated calls the failure branch unreachable for every input. An infinite
  Customer ID is not missing, so \<^verbatim>\<open>dropna\<close> keeps it, and the cast raises on it.
\<close>

theorem clean_infinite_id_counterexample:
  "clean parse_iso [(0, mug_row\<lparr>CustomerID := CidFloat PInf\<rparr>)] = Inl IntCastingNaNError"
  by (simp add: mug_row_def clean_defs sample_eval)

subsection \<open>The description of an output record\<close>

text \<open>
  C4, as the code has it. The Description of every record of the output is a text: the
  stripped Description of the record of the input it was made from (the \<open>k\<close>-th record
  of the output is made from the \<open>k\<close>-th retained record of the input). Stripping it
  again changes nothing, it neither starts nor ends with whitespace, and it is empty
  exactly when that input Description consists of whitespace only.
\<close>

theorem clean_Description_stripped:
  assumes "clean parse df = Inr out" and "k < length out"
  shows "\<exists>s. Description (snd (filter (\<lambda>(i, r). retained r) df ! k)) = Some s \<and>
           Description (snd (out ! k)) = Some (strip s) \<and>
           strip (strip s) = strip s \<and>
           (strip s = [] \<or> \<not> (isspace (hd (strip s)) \<or> isspace (last (strip s)))) \<and>
           (strip s = [] \<longleftrightarrow> list_all isspace s)"
proof -
  let ?r0 = "snd (filter (\<lambda>(i, r). retained r) df ! k)"
  note r0 = clean_Inr_nth [OF assms]
  from r0(2) obtain s where s: "Description ?r0 = Some s"
    by (auto simp: retained_def)
  with clean_row_of_fields(6) [OF r0(1)] have "Description (snd (out ! k)) = Some (strip s)"
    by simp
  moreover have "strip s = [] \<or> \<not> (isspace (hd (strip s)) \<or> isspace (last (strip s)))"
    using strip_hd [of s] strip_last [of s] by blast
  moreover have "strip s = [] \<longleftrightarrow> list_all isspace s"
    by (simp only: strip_Nil_iff list_all_iff)
  ultimately show ?thesis
    using s strip_strip [of s] by blast
qed

theorem clean_Description_stripped_witness:
  "clean parse_iso sample_frame = Inr [(0, mug_clean), (1, plate_clean)] \<and>
   (0 :: nat) < length [(0 :: nat, mug_clean), (1, plate_clean)] \<and>
   Description (snd (filter (\<lambda>(i, r). retained r) sample_frame ! 0)) = Some '' Mug '' \<and>
   Description (snd ([(0 :: nat, mug_clean), (1, plate_clean)] ! 0)) = Some ''Mug''"
  using clean_Description_stripped [OF clean_sample_frame, of 0] clean_sample_frame
  by (simp add: retained_sample_frame mug_row_def strip_mug)

text \<open>
  C4 as stated calls the stripped Description non-empty. A Description of blanks is not
  missing, so line 21 keeps the record, and line 43 strips it to the empty text.
\<close>

theorem clean_blank_Description_counterexample:
  "clean parse_iso [(0, mug_row\<lparr>Description := Some ''   ''\<rparr>)]
     = Inr [(0, mug_clean\<lparr>Description := Some ''''\<rparr>)]"
  by (simp add: mug_row_def mug_clean_def clean_defs calendar_defs sample_eval Let_def
      strip_def isspace_def)

subsection \<open>The calendar columns\<close>

text \<open>
  C8, as the code has it. Every record of the output is of one of two kinds. Either its
  InvoiceDate is a timestamp, and then InvoiceWeek is a whole number from 1 to 53,
  InvoiceMonth a whole number from 1 to 12, and InvoiceDay one of the seven English
  names of the days of the week. Or its InvoiceDate is missing (NaT), and then the three
  columns are missing too.
\<close>

theorem clean_calendar_fields:
  assumes "clean parse df = Inr out" and "(j, r) \<in> set out"
  shows "(InvoiceDate r = DateNull \<and> InvoiceWeek r = None \<and> InvoiceMonth r = None \<and>
          InvoiceDay r = None) \<or>
         (\<exists>t w m d. InvoiceDate r = DateStamp t \<and>
            InvoiceWeek r = Some w \<and> 1 \<le> w \<and> w \<le> 53 \<and>
            InvoiceMonth r = Some m \<and> 1 \<le> m \<and> m \<le> 12 \<and>
            InvoiceDay r = Some d \<and>
            d \<in> set [''Monday'', ''Tuesday'', ''Wednesday'', ''Thursday'', ''Friday'',
                       ''Saturday'', ''Sunday''])"
proof -
  from clean_Inr_member [OF assms(1,2)] obtain i r0 where
    r0: "(i, r0) \<in> set df" "clean_row_of parse r0 = Inr r"
    by blast
  from to_datetime_Inr [OF clean_row_of_fields(7) [OF r0(2)]]
  show ?thesis
  proof
    assume n: "InvoiceDate r = DateNull"
    then have "dt (InvoiceDate r) = Inr None"
      by simp
    from clean_row_of_fields(11,13,14) [OF r0(2) this] n show ?thesis
      by simp
  next
    assume "\<exists>t. InvoiceDate r = DateStamp t"
    then obtain t where s: "InvoiceDate r = DateStamp t"
      by blast
    then have t: "dt (InvoiceDate r) = Inr (Some t)"
      by simp
    have "InvoiceWeek r = Some (ts_week t)" "InvoiceMonth r = Some (month (civil_of t))"
      "InvoiceDay r = Some (ts_day_name t)"
      using clean_row_of_fields(11,13,14) [OF r0(2) t] by simp_all
    with s ts_week_range [of t] ts_month_range [of t] ts_day_name_in [of t] show ?thesis
      by (simp add: day_names_def)
  qed
qed

theorem clean_calendar_fields_witness:
  "clean parse_iso sample_frame = Inr [(0, mug_clean), (1, plate_clean)] \<and>
   (1, plate_clean) \<in> set [(0, mug_clean), (1, plate_clean)] \<and>
   InvoiceDate plate_clean \<noteq> DateNull \<and>
   InvoiceWeek plate_clean = Some 52 \<and> InvoiceMonth plate_clean = Some 1 \<and>
   InvoiceDay plate_clean = Some ''Sunday''"
  using clean_calendar_fields [OF clean_sample_frame, of 1 plate_clean] clean_sample_frame
  by (simp add: plate_clean_def)

text \<open>
  C8 as stated speaks of every record of the output. A record without InvoiceDate is not
  dropped by any filter; \<^verbatim>\<open>to_datetime\<close> makes its date NaT, and the week, the month and
  the name of the day of NaT are missing values.
\<close>

theorem clean_missing_date_counterexample:
  "clean parse_iso [(0, mug_row\<lparr>InvoiceDate := DateNull\<rparr>)]
     = Inr [(0, mug_clean\<lparr>InvoiceDate := DateNull, InvoiceYear := None, InvoiceMonth := None,
                 YearMonth := None, InvoiceWeek := None, InvoiceDay := None\<rparr>)]"
  by (simp add: mug_row_def mug_clean_def clean_defs sample_eval)

subsection \<open>Idempotence\<close>

text \<open>
  C7. When \<^verbatim>\<open>clean\<close> succeeds on a data set, applying it to its own output succeeds and
  gives that output again: every record of the output passes the four filters, its date
  is already a timestamp (or NaT) and its CustomerID an integer, every derived column is
  recomputed to the value it has, the stripped Description is not changed by stripping,
  and the index is already 0, 1, 2, ...
\<close>

theorem clean_idempotent:
  assumes "clean parse df = Inr out"
  shows "clean parse out = Inr out"
proof (rule clean_fixpoint)
  show "map fst out = [0 ..< length out]"
    by (rule clean_Inr_rowwise(2) [OF assms])
next
  fix j r
  assume m: "(j, r) \<in> set out"
  from clean_Inr_fixpoint_rows [OF assms m]
  show "\<exists>s. Description r = Some s \<and> strip s = s"
    and "to_datetime parse (InvoiceDate r) = Inr (InvoiceDate r)"
    and "feature_row r = Inr r"
    by blast+
  from clean_Inr_member [OF assms m] obtain i r0 where
    r0: "(i, r0) \<in> set df" "retained r0" "clean_row_of parse r0 = Inr r"
    by blast
  from astype_int_Inr [OF clean_row_of_fields(8) [OF r0(3)]]
  show "\<exists>n. CustomerID r = CidInt n" .
  from r0(2) clean_row_of_fields(4,5) [OF r0(3)]
  show "0 < Quantity r" and "f64_gt_zero (Price r)"
    by (simp_all add: retained_def)
qed

theorem clean_idempotent_witness:
  "clean parse_iso sample_frame = Inr [(0, mug_clean), (1, plate_clean)] \<and>
   clean parse_iso [(0, mug_clean), (1, plate_clean)] = Inr [(0, mug_clean), (1, plate_clean)]"
  using clean_idempotent [OF clean_sample_frame] clean_sample_frame
  by simp

end
